theory Spec2Isabelle
  imports Complex_Main "HOL-Library.Word" "HOL-Library.Monad_Syntax"
begin

unbundle bit_operations_syntax

section \<open>Audio buffers\<close>

text \<open>
  The platform's \<^verbatim>\<open>AudioBuffer\<close> as \<^verbatim>\<open>services/audioUtils.ts\<close> uses it: the attributes
  \<^verbatim>\<open>sampleRate\<close>, \<^verbatim>\<open>length\<close> (frames) and \<^verbatim>\<open>numberOfChannels\<close>, and one sample array per
  channel. A JavaScript number is modelled as a \<^typ>\<open>real\<close>: samples are the finite values
  of a \<^verbatim>\<open>Float32Array\<close> (a product of such a sample with 32767 or 32768 is exact in double
  precision, so no rounding is lost); \<^verbatim>\<open>NaN\<close> samples are outside the model. Where the
  source divides or multiplies numbers that are not exact in double precision, the model
  rounds as the machine does (\<open>to_double\<close> below). The sample rate is a positive integer, as
  the data model of the specification has it.
\<close>

record AudioBuffer =
  sampleRate :: nat
  length_frames :: nat
  numberOfChannels :: nat
  channelData :: "real list list"

text \<open>\<^verbatim>\<open>buffer.getChannelData(i)\<close> raises IndexSizeError (\<open>None\<close>) for a channel that does not exist.\<close>

definition getChannelData :: "AudioBuffer \<Rightarrow> nat \<Rightarrow> real list option" where
  "getChannelData b i = (if i < length (channelData b) then Some (channelData b ! i) else None)"

text \<open>What the platform guarantees of every buffer it hands out.\<close>

definition wf_buffer :: "AudioBuffer \<Rightarrow> bool" where
  "wf_buffer b \<longleftrightarrow>
     length (channelData b) = numberOfChannels b \<and>
     list_all (\<lambda>c. length c = length_frames b) (channelData b)"

section \<open>PCM encoder: \<^verbatim>\<open>audioBufferToWav\<close>\<close>

type_synonym byte = "8 word"

text \<open>
  \<^verbatim>\<open>DataView.setUint16/setUint32/setInt16(pos, data, true)\<close> store the value, taken modulo
  the field width, as little-endian bytes at \<^verbatim>\<open>pos\<close>, and raise RangeError (\<open>None\<close>) when
  the field does not fit in the buffer.
\<close>

definition le_bytes16 :: "nat \<Rightarrow> byte list" where
  "le_bytes16 data = [of_nat data, of_nat (data div 256)]"

definition le_bytes32 :: "nat \<Rightarrow> byte list" where
  "le_bytes32 data =
     [of_nat data, of_nat (data div 256), of_nat (data div 65536), of_nat (data div 16777216)]"

definition le_bytes16_int :: "int \<Rightarrow> byte list" where
  "le_bytes16_int data = [of_int data, of_int (data div 256)]"

definition write_bytes :: "nat \<Rightarrow> byte list \<Rightarrow> byte list \<Rightarrow> byte list option" where
  "write_bytes pos bs view =
     (if pos + length bs \<le> length view
      then Some (take pos view @ bs @ drop (pos + length bs) view)
      else None)"

definition view_setUint16 :: "nat \<Rightarrow> nat \<Rightarrow> byte list \<Rightarrow> byte list option" where
  "view_setUint16 pos data view = write_bytes pos (le_bytes16 data) view"

definition view_setUint32 :: "nat \<Rightarrow> nat \<Rightarrow> byte list \<Rightarrow> byte list option" where
  "view_setUint32 pos data view = write_bytes pos (le_bytes32 data) view"

definition view_setInt16 :: "nat \<Rightarrow> int \<Rightarrow> byte list \<Rightarrow> byte list option" where
  "view_setInt16 pos data view = write_bytes pos (le_bytes16_int data) view"

text \<open>The two local helpers of \<^verbatim>\<open>audioBufferToWav\<close>, which write at \<^verbatim>\<open>pos\<close> and advance it.\<close>

definition setUint16 :: "nat \<Rightarrow> byte list \<times> nat \<Rightarrow> (byte list \<times> nat) option" where
  "setUint16 data st =
     (case st of (view, pos) \<Rightarrow>
        (case view_setUint16 pos data view of None \<Rightarrow> None | Some view' \<Rightarrow> Some (view', pos + 2)))"

definition setUint32 :: "nat \<Rightarrow> byte list \<times> nat \<Rightarrow> (byte list \<times> nat) option" where
  "setUint32 data st =
     (case st of (view, pos) \<Rightarrow>
        (case view_setUint32 pos data view of None \<Rightarrow> None | Some view' \<Rightarrow> Some (view', pos + 4)))"

text \<open>The thirteen header writes, in the order of the source.\<close>

definition write_header :: "AudioBuffer \<Rightarrow> nat \<Rightarrow> byte list \<Rightarrow> (byte list \<times> nat) option" where
  "write_header buffer len view =
     Some (view, 0)
       \<bind> setUint32 0x46464952
       \<bind> setUint32 (len - 8)
       \<bind> setUint32 0x45564157
       \<bind> setUint32 0x20746d66
       \<bind> setUint32 16
       \<bind> setUint16 1
       \<bind> setUint16 (numberOfChannels buffer)
       \<bind> setUint32 (sampleRate buffer)
       \<bind> setUint32 (sampleRate buffer * 2 * numberOfChannels buffer)
       \<bind> setUint16 (numberOfChannels buffer * 2)
       \<bind> setUint16 16
       \<bind> setUint32 0x61746164
       \<bind> (\<lambda>st. setUint32 (len - snd st - 4) st)"

text \<open>\<^verbatim>\<open>for (let i = 0; i < buffer.numberOfChannels; i++) channels.push(buffer.getChannelData(i))\<close>\<close>

function collect_channels :: "AudioBuffer \<Rightarrow> nat \<Rightarrow> real list list \<Rightarrow> real list list option" where
  "collect_channels buffer i channels =
     (if i < numberOfChannels buffer
      then (case getChannelData buffer i of
              None \<Rightarrow> None
            | Some c \<Rightarrow> collect_channels buffer (i + 1) (channels @ [c]))
      else Some channels)"
  by pat_completeness auto
termination
  by (relation "measure (\<lambda>(buffer, i, channels). numberOfChannels buffer - i)") auto

declare collect_channels.simps [simp del]

text \<open>
  The quantisation of one sample, lines 107 and 108 of the source:
  \<^verbatim>\<open>sample = Math.max(-1, Math.min(1, channels[ch][i]));\<close>
  \<^verbatim>\<open>sample = (0.5 + sample < 0 ? sample * 32768 : sample * 32767) | 0;\<close>
  In JavaScript \<^verbatim>\<open>+\<close> binds tighter than \<^verbatim>\<open><\<close>, which binds tighter than \<^verbatim>\<open>?:\<close>, so
  the condition is \<^verbatim>\<open>(0.5 + sample) < 0\<close>; \<^verbatim>\<open>| 0\<close> is ToInt32: truncation towards zero,
  then reduction to a signed 32-bit integer.
\<close>

definition clamp_sample :: "real \<Rightarrow> real" where
  "clamp_sample x = max (- 1) (min 1 x)"

definition scale_sample :: "real \<Rightarrow> real" where
  "scale_sample sample = (if 0.5 + sample < 0 then sample * 32768 else sample * 32767)"

definition trunc_real :: "real \<Rightarrow> int" where
  "trunc_real x = (if x < 0 then \<lceil>x\<rceil> else \<lfloor>x\<rfloor>)"

definition ToInt32 :: "real \<Rightarrow> int" where
  "ToInt32 x = sint (word_of_int (trunc_real x) :: 32 word)"

definition quantize :: "real \<Rightarrow> int" where
  "quantize x = ToInt32 (scale_sample (clamp_sample x))"

text \<open>
  \<^verbatim>\<open>channels[ch][i]\<close>: out of range it is \<^verbatim>\<open>undefined\<close>, which \<^verbatim>\<open>Math.min\<close> turns into
  \<^verbatim>\<open>NaN\<close> and \<^verbatim>\<open>| 0\<close> into 0.
\<close>

definition read_sample :: "real list list \<Rightarrow> nat \<Rightarrow> nat \<Rightarrow> real option" where
  "read_sample channels ch i =
     (if ch < length channels \<and> i < length (channels ! ch) then Some (channels ! ch ! i) else None)"

definition quantize_read :: "real option \<Rightarrow> int" where
  "quantize_read r = (case r of None \<Rightarrow> 0 | Some x \<Rightarrow> quantize x)"

text \<open>The inner \<^verbatim>\<open>for (let ch = 0; ch < numOfChan; ch++)\<close> loop; the state is the view and \<^verbatim>\<open>offset\<close>.\<close>

function write_frame ::
  "real list list \<Rightarrow> nat \<Rightarrow> nat \<Rightarrow> nat \<Rightarrow> byte list \<times> nat \<Rightarrow> (byte list \<times> nat) option" where
  "write_frame channels numOfChan i ch st =
     (if ch < numOfChan
      then (case view_setInt16 (44 + snd st) (quantize_read (read_sample channels ch i)) (fst st) of
              None \<Rightarrow> None
            | Some view' \<Rightarrow> write_frame channels numOfChan i (ch + 1) (view', snd st + 2))
      else Some st)"
  by pat_completeness auto
termination
  by (relation "measure (\<lambda>(channels, numOfChan, i, ch, st). numOfChan - ch)") auto

declare write_frame.simps [simp del]

text \<open>The outer \<^verbatim>\<open>while (i < buffer.length)\<close> loop.\<close>

function write_samples ::
  "real list list \<Rightarrow> nat \<Rightarrow> nat \<Rightarrow> nat \<Rightarrow> byte list \<times> nat \<Rightarrow> (byte list \<times> nat) option" where
  "write_samples channels numOfChan n i st =
     (if i < n
      then (case write_frame channels numOfChan i 0 st of
              None \<Rightarrow> None
            | Some st' \<Rightarrow> write_samples channels numOfChan n (i + 1) st')
      else Some st)"
  by pat_completeness auto
termination
  by (relation "measure (\<lambda>(channels, numOfChan, n, i, st). n - i)") auto

declare write_samples.simps [simp del]

text \<open>
  \<^verbatim>\<open>audioBufferToWav\<close>: the bytes of the returned Blob, or \<open>None\<close> when a platform call
  raises. \<^verbatim>\<open>new ArrayBuffer(length)\<close> is zero-filled.
\<close>

definition audioBufferToWav :: "AudioBuffer \<Rightarrow> byte list option" where
  "audioBufferToWav buffer =
     (let numOfChan = numberOfChannels buffer;
          len = length_frames buffer * numOfChan * 2 + 44;
          bufferArray = replicate len (0 :: byte)
      in case write_header buffer len bufferArray of
           None \<Rightarrow> None
         | Some (view, pos) \<Rightarrow>
             (case collect_channels buffer 0 [] of
                None \<Rightarrow> None
              | Some channels \<Rightarrow>
                  (case write_samples channels numOfChan (length_frames buffer) 0 (view, 0) of
                     None \<Rightarrow> None
                   | Some (view', offset) \<Rightarrow> Some view')))"

text \<open>Readers of the container, the little-endian counterparts of the writers above.\<close>

definition getUint16 :: "byte list \<Rightarrow> nat \<Rightarrow> nat" where
  "getUint16 view pos = unat (view ! pos) + 256 * unat (view ! (pos + 1))"

definition getUint32 :: "byte list \<Rightarrow> nat \<Rightarrow> nat" where
  "getUint32 view pos =
     unat (view ! pos) + 256 * unat (view ! (pos + 1)) +
     65536 * unat (view ! (pos + 2)) + 16777216 * unat (view ! (pos + 3))"

text \<open>
  The bytes the encoder is shown below to produce: the 44 header bytes, then the samples,
  frame by frame and channel by channel within a frame.
\<close>

definition header_bytes :: "AudioBuffer \<Rightarrow> nat \<Rightarrow> byte list" where
  "header_bytes buffer len =
     le_bytes32 0x46464952 @ le_bytes32 (len - 8) @ le_bytes32 0x45564157 @
     le_bytes32 0x20746d66 @ le_bytes32 16 @ le_bytes16 1 @
     le_bytes16 (numberOfChannels buffer) @ le_bytes32 (sampleRate buffer) @
     le_bytes32 (sampleRate buffer * 2 * numberOfChannels buffer) @
     le_bytes16 (numberOfChannels buffer * 2) @ le_bytes16 16 @
     le_bytes32 0x61746164 @ le_bytes32 (len - 40 - 4)"

definition frame_bytes :: "real list list \<Rightarrow> nat \<Rightarrow> nat \<Rightarrow> nat \<Rightarrow> byte list" where
  "frame_bytes channels numOfChan i ch =
     concat (map (\<lambda>c. le_bytes16_int (quantize_read (read_sample channels c i))) [ch..<numOfChan])"

definition samples_bytes :: "real list list \<Rightarrow> nat \<Rightarrow> nat \<Rightarrow> nat \<Rightarrow> byte list" where
  "samples_bytes channels numOfChan n i =
     concat (map (\<lambda>k. frame_bytes channels numOfChan k 0) [i..<n])"

definition wav_bytes :: "AudioBuffer \<Rightarrow> byte list" where
  "wav_bytes b =
     header_bytes b (length_frames b * numberOfChannels b * 2 + 44) @
     samples_bytes (channelData b) (numberOfChannels b) (length_frames b) 0"

text \<open>A write at \<^verbatim>\<open>pos\<close> that advances \<^verbatim>\<open>pos\<close>: what \<open>setUint16\<close> and \<open>setUint32\<close> have in common.\<close>

definition put :: "byte list \<Rightarrow> byte list \<times> nat \<Rightarrow> (byte list \<times> nat) option" where
  "put bs st =
     (case write_bytes (snd st) bs (fst st) of
        None \<Rightarrow> None
      | Some v \<Rightarrow> Some (v, snd st + length bs))"

text \<open>
  The quantisation as the specification words it: clamp, then
  \<^verbatim>\<open>q = sample < 0 ? round(sample * 32768) : round(sample * 32767)\<close>.
\<close>

definition spec_quantize :: "real \<Rightarrow> int" where
  "spec_quantize x =
     (let sample = clamp_sample x
      in if sample < 0 then round (sample * 32768) else round (sample * 32767))"

text \<open>
  The scenario buffer of the specification, samples \<^verbatim>\<open>[[1.0,-1.0],[0.0,0.5]]\<close>, read with
  the rows as frames (the reading under which the expected bytes are in the order given) and
  with the rows as channels (the layout of \<^verbatim>\<open>getChannelData\<close>).
\<close>

definition scenario_frames :: AudioBuffer where
  "scenario_frames =
     \<lparr>sampleRate = 44100, length_frames = 2, numberOfChannels = 2,
      channelData = [[1, 0], [- 1, 1 / 2]]\<rparr>"

definition scenario_channels :: AudioBuffer where
  "scenario_channels =
     \<lparr>sampleRate = 44100, length_frames = 2, numberOfChannels = 2,
      channelData = [[1, - 1], [0, 1 / 2]]\<rparr>"

definition half_sample :: AudioBuffer where
  "half_sample =
     \<lparr>sampleRate = 44100, length_frames = 1, numberOfChannels = 1, channelData = [[1 / 2]]\<rparr>"

section \<open>Offline mixer: \<^verbatim>\<open>mixAudioBuffers\<close>\<close>

text \<open>
  Double precision. The result of a division or a multiplication is the exact result
  rounded to the nearest number with a 53-bit significand, ties to the even significand.
  \<open>double_exponent x\<close> is the binary exponent of a positive \<open>x\<close>, the \<open>e\<close> with
  \<open>2^e \<le> x < 2^(e+1)\<close>. Subnormal numbers and overflow are not modelled: the quotients and
  products of the mixer, for frame counts and rates below \<open>2^32\<close>, are far from both.
\<close>

definition pow2 :: "int \<Rightarrow> real" where
  "pow2 k = (if 0 \<le> k then 2 ^ nat k else 1 / 2 ^ nat (- k))"

function double_exponent :: "real \<Rightarrow> int" where
  "double_exponent x =
     (if x \<le> 0 then 0
      else if 2 \<le> x then double_exponent (x / 2) + 1
      else if x < 1 then double_exponent (x * 2) - 1
      else 0)"
  by pat_completeness auto
termination
proof (relation "measure (\<lambda>x. nat \<bar>\<lfloor>log 2 x\<rfloor>\<bar>)")
  show "wf (measure (\<lambda>x. nat \<bar>\<lfloor>log 2 x\<rfloor>\<bar>))"
    by simp
next
  fix x :: real
  assume "\<not> x \<le> 0" and x2: "2 \<le> x"
  then have x0: "0 < x" by simp
  have "log 2 (x / 2) = log 2 x - 1"
    using x0 by (simp add: log_divide)
  then have f: "\<lfloor>log 2 (x / 2)\<rfloor> = \<lfloor>log 2 x\<rfloor> - 1"
    by simp
  have "1 \<le> log 2 x"
    using x0 x2 by simp
  then have "1 \<le> \<lfloor>log 2 x\<rfloor>"
    by (simp add: le_floor_iff)
  then show "(x / 2, x) \<in> measure (\<lambda>x. nat \<bar>\<lfloor>log 2 x\<rfloor>\<bar>)"
    unfolding in_measure f by linarith
next
  fix x :: real
  assume "\<not> x \<le> 0" and "\<not> 2 \<le> x" and x1: "x < 1"
  then have x0: "0 < x" by simp
  have "log 2 (x * 2) = log 2 x + 1"
    using x0 by (simp add: log_mult)
  then have f: "\<lfloor>log 2 (x * 2)\<rfloor> = \<lfloor>log 2 x\<rfloor> + 1"
    by simp
  have "log 2 x < 0"
    using x0 x1 by simp
  then have "\<lfloor>log 2 x\<rfloor> < 0"
    by (simp add: floor_less_iff)
  then show "(x * 2, x) \<in> measure (\<lambda>x. nat \<bar>\<lfloor>log 2 x\<rfloor>\<bar>)"
    unfolding in_measure f by linarith
qed

declare double_exponent.simps [simp del]

definition round_ties_even :: "real \<Rightarrow> int" where
  "round_ties_even y =
     (let f = \<lfloor>y\<rfloor>; r = y - of_int f
      in if r < 1 / 2 then f else if 1 / 2 < r then f + 1 else if even f then f else f + 1)"

definition to_double :: "real \<Rightarrow> real" where
  "to_double x =
     (if x = 0 then 0
      else let ulp = pow2 (double_exponent \<bar>x\<bar> - 52)
           in sgn x * (of_int (round_ties_even (\<bar>x\<bar> / ulp)) * ulp))"

text \<open>
  \<^verbatim>\<open>buffer.duration\<close>: the platform derives it as length / sampleRate, a division of
  doubles.
\<close>

definition duration :: "AudioBuffer \<Rightarrow> real" where
  "duration b = to_double (real (length_frames b) / real (sampleRate b))"

text \<open>
  The second argument of \<^verbatim>\<open>new OfflineAudioContext(numberOfChannels, length, sampleRate)\<close>
  is an \<^verbatim>\<open>unsigned long\<close>: the platform truncates the number towards zero and reduces it
  modulo \<open>2^32\<close>.
\<close>

definition unsigned_long :: "real \<Rightarrow> nat" where
  "unsigned_long x = nat (trunc_real x mod 4294967296)"

text \<open>
  The constructor raises NotSupportedError (\<open>None\<close>) for zero channels, zero length or a
  zero rate; \<^verbatim>\<open>startRendering()\<close> resolves with a buffer of the context's channel count,
  length and rate. \<^verbatim>\<open>Math.max\<close> is exact; \<^verbatim>\<open>duration * sampleRate\<close> is a product of
  doubles. The rendered samples are the platform's work (resampling and summing of the two
  sources): \<open>render\<close> stands for it.
\<close>

definition mixAudioBuffers ::
  "(nat \<Rightarrow> nat \<Rightarrow> nat \<Rightarrow> AudioBuffer \<Rightarrow> AudioBuffer \<Rightarrow> real list list) \<Rightarrow>
   AudioBuffer \<Rightarrow> AudioBuffer \<Rightarrow> AudioBuffer option" where
  "mixAudioBuffers render buffer1 buffer2 =
     (let duration' = max (duration buffer1) (duration buffer2);
          sampleRate' = max (sampleRate buffer1) (sampleRate buffer2);
          numberOfChannels' = max (numberOfChannels buffer1) (numberOfChannels buffer2);
          len = unsigned_long (to_double (duration' * real sampleRate'))
      in if numberOfChannels' = 0 \<or> len = 0 \<or> sampleRate' = 0 then None
         else Some \<lparr>sampleRate = sampleRate', length_frames = len,
                     numberOfChannels = numberOfChannels',
                     channelData = render numberOfChannels' len sampleRate' buffer1 buffer2\<rparr>)"

text \<open>A renderer for closed examples: silence of the right shape.\<close>

definition render_silence :: "nat \<Rightarrow> nat \<Rightarrow> nat \<Rightarrow> AudioBuffer \<Rightarrow> AudioBuffer \<Rightarrow> real list list" where
  "render_silence ch len sr buffer1 buffer2 = replicate ch (replicate len 0)"


definition fifteen_frames_44100 :: AudioBuffer where
  "fifteen_frames_44100 =
     \<lparr>sampleRate = 44100, length_frames = 15, numberOfChannels = 1,
      channelData = [replicate 15 0]\<rparr>"


section \<open>Source router: \<^verbatim>\<open>UnifiedAudioGraph\<close>\<close>

text \<open>
  The platform objects the router touches. A media stream is the list of its tracks; a
  track that has been stopped is recorded by its id. An audio node is named by what it was
  made from; the audio graph is the set of connections between nodes.
\<close>

datatype TrackKind = AudioKind | VideoKind

record MediaStreamTrack =
  track_id :: nat
  kind :: TrackKind

type_synonym MediaStream = "MediaStreamTrack list"

datatype AudioNode =
    MediaStreamSourceNode MediaStream
  | MediaElementSourceNode nat
  | AnalyserNode
  | DestinationNode

datatype ContextState = Suspended | Running

record UnifiedAudioGraph =
  contextState :: ContextState
  source :: "AudioNode option"
  activeStream :: "MediaStream option"
  connections :: "(AudioNode \<times> AudioNode) set"
  stoppedTracks :: "nat set"
  tappedElements :: "nat set"

text \<open>The constructor: no source, no stream, nothing connected.\<close>

definition new_graph :: UnifiedAudioGraph where
  "new_graph =
     \<lparr>contextState = Suspended, source = None, activeStream = None, connections = {},
      stoppedTracks = {}, tappedElements = {}\<rparr>"

definition resume :: "UnifiedAudioGraph \<Rightarrow> UnifiedAudioGraph" where
  "resume g = (if contextState g = Suspended then g\<lparr>contextState := Running\<rparr> else g)"

text \<open>\<^verbatim>\<open>node.disconnect()\<close> removes every outgoing connection of the node.\<close>

definition node_disconnect :: "AudioNode \<Rightarrow> (AudioNode \<times> AudioNode) set \<Rightarrow> (AudioNode \<times> AudioNode) set" where
  "node_disconnect n cs = {e \<in> cs. fst e \<noteq> n}"

text \<open>\<^verbatim>\<open>stream.getTracks().forEach(track => track.stop())\<close>\<close>

definition stop_tracks :: "MediaStream \<Rightarrow> nat set \<Rightarrow> nat set" where
  "stop_tracks stream stopped = stopped \<union> track_id ` set stream"

definition disconnect :: "UnifiedAudioGraph \<Rightarrow> UnifiedAudioGraph" where
  "disconnect g =
     (let g1 = (case source g of
                  Some n \<Rightarrow> g\<lparr>connections := node_disconnect n (connections g), source := None\<rparr>
                | None \<Rightarrow> g)
      in case activeStream g1 of
           Some stream \<Rightarrow>
             g1\<lparr>stoppedTracks := stop_tracks stream (stoppedTracks g1), activeStream := None\<rparr>
         | None \<Rightarrow> g1)"

definition getAudioTracks :: "MediaStream \<Rightarrow> MediaStreamTrack list" where
  "getAudioTracks stream = filter (\<lambda>t. kind t = AudioKind) stream"

text \<open>
  \<^verbatim>\<open>createMediaStreamSource\<close> raises InvalidStateError (\<open>None\<close>) for a stream without an
  audio track; \<^verbatim>\<open>createMediaElementSource\<close> raises it for an element that already has a
  source node.
\<close>

definition createMediaStreamSource :: "MediaStream \<Rightarrow> AudioNode option" where
  "createMediaStreamSource stream =
     (if getAudioTracks stream = [] then None else Some (MediaStreamSourceNode stream))"

definition createMediaElementSource :: "nat set \<Rightarrow> nat \<Rightarrow> AudioNode option" where
  "createMediaElementSource tapped audioElement =
     (if audioElement \<in> tapped then None else Some (MediaElementSourceNode audioElement))"

text \<open>
  What the platform answers to \<^verbatim>\<open>getUserMedia\<close> or \<^verbatim>\<open>getDisplayMedia\<close>: the interface
  is missing, the promise is rejected (permission denied, no device), or a stream is granted.
  Each connect call is modelled as one atomic step given that answer.
\<close>

datatype MediaRequest = Unsupported | Rejected | Granted MediaStream

definition connectMicrophone :: "MediaRequest \<Rightarrow> UnifiedAudioGraph \<Rightarrow> bool \<times> UnifiedAudioGraph" where
  "connectMicrophone r g0 =
     (let g = disconnect (resume g0)
      in case r of
           Unsupported \<Rightarrow> (False, g)
         | Rejected \<Rightarrow> (False, g)
         | Granted stream \<Rightarrow>
             (let g1 = g\<lparr>activeStream := Some stream\<rparr>
              in case createMediaStreamSource stream of
                   None \<Rightarrow> (False, g1)
                 | Some node \<Rightarrow>
                     (True, g1\<lparr>source := Some node,
                                connections := insert (node, AnalyserNode) (connections g1)\<rparr>)))"

definition connectSystemAudio :: "MediaRequest \<Rightarrow> UnifiedAudioGraph \<Rightarrow> bool \<times> UnifiedAudioGraph" where
  "connectSystemAudio r g0 =
     (let g = disconnect (resume g0)
      in case r of
           Unsupported \<Rightarrow> (False, g)
         | Rejected \<Rightarrow> (False, g)
         | Granted stream \<Rightarrow>
             (case getAudioTracks stream of
                [] \<Rightarrow> (False, g\<lparr>stoppedTracks := stop_tracks stream (stoppedTracks g)\<rparr>)
              | audioTrack # _ \<Rightarrow>
                  (let g1 = g\<lparr>activeStream := Some stream\<rparr>
                   in case createMediaStreamSource stream of
                        None \<Rightarrow> (False, g1)
                      | Some node \<Rightarrow>
                          (True, g1\<lparr>source := Some node,
                                     connections := insert (node, AnalyserNode) (connections g1)\<rparr>))))"

text \<open>
  \<^verbatim>\<open>connectElement\<close> returns nothing; when \<^verbatim>\<open>createMediaElementSource\<close> raises, the
  \<^verbatim>\<open>catch\<close> swallows it after \<^verbatim>\<open>disconnect()\<close> has run.
\<close>

definition connectElement :: "nat \<Rightarrow> UnifiedAudioGraph \<Rightarrow> UnifiedAudioGraph" where
  "connectElement audioElement g0 =
     (let g = disconnect (resume g0)
      in case createMediaElementSource (tappedElements g) audioElement of
           None \<Rightarrow> g
         | Some node \<Rightarrow>
             g\<lparr>source := Some node,
               tappedElements := insert audioElement (tappedElements g),
               connections :=
                 insert (AnalyserNode, DestinationNode)
                   (insert (node, AnalyserNode) (connections g))\<rparr>)"

text \<open>
  The router's observable state, and whether the signal of a node reaches the audible
  output along the connections of the graph.
\<close>

definition router_state :: "UnifiedAudioGraph \<Rightarrow> AudioNode option \<times> MediaStream option" where
  "router_state g = (source g, activeStream g)"

definition audible :: "UnifiedAudioGraph \<Rightarrow> AudioNode \<Rightarrow> bool" where
  "audible g n \<longleftrightarrow> (n, DestinationNode) \<in> (connections g)\<^sup>+"

text \<open>Whether the platform granted a stream.\<close>

definition granted :: "MediaRequest \<Rightarrow> bool" where
  "granted r = (case r of Granted stream \<Rightarrow> True | _ \<Rightarrow> False)"

definition mic_stream :: MediaStream where
  "mic_stream = [\<lparr>track_id = 1, kind = AudioKind\<rparr>]"

definition screen_stream :: MediaStream where
  "screen_stream = [\<lparr>track_id = 2, kind = VideoKind\<rparr>]"

section \<open>Frequency analyser: \<^verbatim>\<open>getBassEnergy\<close> and \<^verbatim>\<open>drawBars\<close>\<close>

text \<open>
  Both classes set \<^verbatim>\<open>analyser.fftSize = 4096\<close> in the constructor and allocate
  \<^verbatim>\<open>dataArray = new Uint8Array(analyser.frequencyBinCount)\<close>, which the platform fills on
  \<^verbatim>\<open>getByteFrequencyData\<close>. Reading a typed array outside its range gives
  \<^verbatim>\<open>undefined\<close> (\<open>None\<close>).
\<close>

definition fftSize :: nat where
  "fftSize = 4096"

definition frequencyBinCount :: nat where
  "frequencyBinCount = fftSize div 2"

definition read_u8 :: "byte list \<Rightarrow> int \<Rightarrow> nat option" where
  "read_u8 dataArray j =
     (if 0 \<le> j \<and> j < int (length dataArray) then Some (unat (dataArray ! nat j)) else None)"

text \<open>\<^verbatim>\<open>sum += data[i]\<close>: adding \<^verbatim>\<open>undefined\<close> gives \<^verbatim>\<open>NaN\<close> (\<open>None\<close>), which stays.\<close>

definition js_add :: "real option \<Rightarrow> nat option \<Rightarrow> real option" where
  "js_add acc v = (case (acc, v) of (Some a, Some n) \<Rightarrow> Some (a + real n) | _ \<Rightarrow> None)"

text \<open>\<^verbatim>\<open>for (let i = 1; i <= 8; i++) sum += data[i]\<close>\<close>

function bass_loop :: "byte list \<Rightarrow> int \<Rightarrow> real option \<Rightarrow> real option" where
  "bass_loop data i acc =
     (if i \<le> 8 then bass_loop data (i + 1) (js_add acc (read_u8 data i)) else acc)"
  by pat_completeness auto
termination
  by (relation "measure (\<lambda>(data, i, acc). nat (9 - i))") auto

declare bass_loop.simps [simp del]

definition getBassEnergy :: "byte list \<Rightarrow> real option" where
  "getBassEnergy data = map_option (\<lambda>acc. acc / 8) (bass_loop data 1 (Some 0))"

text \<open>
  The bins the specification asks for: those whose centre frequency, the bin index times
  \<^verbatim>\<open>binHz = sampleRate / transformSize\<close>, lies in [10, 90] Hz.
\<close>

definition center_in_band :: "nat \<Rightarrow> nat \<Rightarrow> nat \<Rightarrow> bool" where
  "center_in_band rate transformSize k \<longleftrightarrow>
     (let binHz = real rate / real transformSize
      in 10 \<le> binHz * real k \<and> binHz * real k \<le> 90)"

definition bin8_only :: "byte list" where
  "bin8_only = (replicate 2048 0)[8 := 255]"

text \<open>
  \<^verbatim>\<open>Math.pow\<close> on a non-negative base, over the reals: \<^verbatim>\<open>Math.pow(x, 0)\<close> is 1 for
  every \<open>x\<close>. The rounding of double precision is outside the model.
\<close>

definition js_pow :: "real \<Rightarrow> real \<Rightarrow> real" where
  "js_pow x y = (if y = 0 then 1 else x powr y)"

definition minBin :: real where
  "minBin = 1"

definition numBars :: nat where
  "numBars = 512"

definition startBin :: "real \<Rightarrow> nat \<Rightarrow> nat \<Rightarrow> int" where
  "startBin maxBin nBars i = \<lfloor>minBin * js_pow (maxBin / minBin) (real i / real nBars)\<rfloor>"

definition endBin :: "real \<Rightarrow> nat \<Rightarrow> nat \<Rightarrow> int" where
  "endBin maxBin nBars i = \<lfloor>minBin * js_pow (maxBin / minBin) (real (i + 1) / real nBars)\<rfloor>"

definition safeEndBin :: "real \<Rightarrow> nat \<Rightarrow> nat \<Rightarrow> int" where
  "safeEndBin maxBin nBars i = max (endBin maxBin nBars i) (startBin maxBin nBars i + 1)"

text \<open>
  The scan of one bar,
  \<^verbatim>\<open>for (let j = startBin; j < safeEndBin && j < this.dataArray.length; j++)\<close>,
  with the running maximum and, beside it, the indices at which the array has been read.
\<close>

function scan_bins :: "byte list \<Rightarrow> int \<Rightarrow> int \<Rightarrow> nat \<times> int list \<Rightarrow> nat \<times> int list" where
  "scan_bins dataArray safeEnd j st =
     (if j < safeEnd \<and> j < int (length dataArray)
      then scan_bins dataArray safeEnd (j + 1)
             (case read_u8 dataArray j of
                Some v \<Rightarrow> (if v > fst st then v else fst st, snd st @ [j])
              | None \<Rightarrow> (fst st, snd st @ [j]))
      else st)"
  by pat_completeness auto
termination
  by (relation "measure (\<lambda>(dataArray, safeEnd, j, st). nat (safeEnd - j))") auto

declare scan_bins.simps [simp del]

definition bar_scan :: "byte list \<Rightarrow> real \<Rightarrow> nat \<Rightarrow> nat \<Rightarrow> nat \<times> int list" where
  "bar_scan dataArray maxBin nBars i =
     scan_bins dataArray (safeEndBin maxBin nBars i) (startBin maxBin nBars i) (0, [])"

text \<open>
  \<^verbatim>\<open>drawBars\<close>: nothing without a 2d context, else one \<^verbatim>\<open>fillRect(x, y, w, h)\<close> per bar.
\<close>

definition draw_bar :: "real \<Rightarrow> real \<Rightarrow> byte list \<Rightarrow> nat \<Rightarrow> real \<times> real \<times> real \<times> real" where
  "draw_bar width height dataArray i =
     (let barWidth = width / real numBars;
          spacer = (if barWidth > 2 then 1 else 0);
          maxBin = real frequencyBinCount - 1;
          maxVal = fst (bar_scan dataArray maxBin numBars i);
          barHeight = (real maxVal / 255) * height;
          x = real i * barWidth;
          w = max 0.5 (barWidth - spacer)
      in (x, height - barHeight, w, barHeight))"

definition drawBars ::
  "bool \<Rightarrow> real \<Rightarrow> real \<Rightarrow> byte list \<Rightarrow> (real \<times> real \<times> real \<times> real) list option" where
  "drawBars ctx width height dataArray =
     (if \<not> ctx then None else Some (map (draw_bar width height dataArray) [0..<numBars]))"

text \<open>Every index at which one call of \<^verbatim>\<open>drawBars\<close> reads the array.\<close>

definition drawBars_reads :: "byte list \<Rightarrow> int list" where
  "drawBars_reads dataArray =
     concat (map (\<lambda>i. snd (bar_scan dataArray (real frequencyBinCount - 1) numBars i)) [0..<numBars])"

text \<open>Whether some bar's clamped span \<open>[startBin, safeEndBin)\<close> contains the bin.\<close>

definition bin_covered :: "real \<Rightarrow> nat \<Rightarrow> int \<Rightarrow> bool" where
  "bin_covered maxBin nBars k \<longleftrightarrow>
     list_ex (\<lambda>i. startBin maxBin nBars i \<le> k \<and> k < safeEndBin maxBin nBars i) [0..<nBars]"

section \<open>The encoder writes the header, then the interleaved samples\<close>


lemma setUint32_put: "setUint32 d = put (le_bytes32 d)"
  by (rule ext) (auto simp: setUint32_def put_def view_setUint32_def le_bytes32_def split: prod.splits option.splits)

lemma setUint16_put: "setUint16 d = put (le_bytes16 d)"
  by (rule ext) (auto simp: setUint16_def put_def view_setUint16_def le_bytes16_def split: prod.splits option.splits)

lemma put_put: "put bs st \<bind> put cs = put (bs @ cs) st"
  by (cases st) (auto simp: put_def write_bytes_def ac_simps)

lemma put_bind_assoc: "(m \<bind> put bs) \<bind> put cs = m \<bind> put (bs @ cs)"
  by (cases m) (simp_all add: put_put)

lemma write_bytes_append:
  "write_bytes p (bs @ cs) v = write_bytes p bs v \<bind> write_bytes (p + length bs) cs"
  by (auto simp: write_bytes_def ac_simps)

lemma length_frame_bytes: "length (frame_bytes channels C i ch) = 2 * (C - ch)"
  by (simp add: frame_bytes_def length_concat le_bytes16_int_def o_def sum_list_triv)

lemma length_samples_bytes: "length (samples_bytes channels C n i) = 2 * C * (n - i)"
  by (simp add: samples_bytes_def length_concat length_frame_bytes o_def sum_list_triv)

lemma write_frame_bytes:
  "write_bytes (44 + off) (frame_bytes channels C i ch) view = Some v' \<Longrightarrow>
   write_frame channels C i ch (view, off) = Some (v', off + 2 * (C - ch))"
proof (induction "C - ch" arbitrary: ch view off)
  case 0
  then show ?case
    by (subst write_frame.simps) (simp add: frame_bytes_def write_bytes_def split: if_splits)
next
  case (Suc k)
  then have lt: "ch < C" and k: "k = C - (ch + 1)" by simp_all
  let ?bs = "le_bytes16_int (quantize_read (read_sample channels ch i))"
  have fb: "frame_bytes channels C i ch = ?bs @ frame_bytes channels C i (ch + 1)"
    using lt by (simp add: frame_bytes_def upt_rec [of ch C])
  have l2: "length ?bs = 2" by (simp add: le_bytes16_int_def)
  from Suc.prems obtain v1 where
    w1: "write_bytes (44 + off) ?bs view = Some v1" and
    w2: "write_bytes (44 + (off + 2)) (frame_bytes channels C i (ch + 1)) v1 = Some v'"
    by (auto simp: fb write_bytes_append l2 bind_eq_Some_conv ac_simps)
  have "write_frame channels C i ch (view, off) = write_frame channels C i (ch + 1) (v1, off + 2)"
    using lt w1 by (subst write_frame.simps) (simp add: view_setInt16_def)
  also have "\<dots> = Some (v', (off + 2) + 2 * (C - (ch + 1)))"
    using Suc.hyps(1) [OF k w2] .
  also have "(off + 2) + 2 * (C - (ch + 1)) = off + 2 * (C - ch)"
    using lt by arith
  finally show ?case .
qed

lemma write_samples_bytes:
  "write_bytes (44 + off) (samples_bytes channels C n i) view = Some v' \<Longrightarrow>
   write_samples channels C n i (view, off) = Some (v', off + 2 * C * (n - i))"
proof (induction "n - i" arbitrary: i view off)
  case 0
  then show ?case
    by (subst write_samples.simps) (simp add: samples_bytes_def write_bytes_def split: if_splits)
next
  case (Suc k)
  then have lt: "i < n" and k: "k = n - (i + 1)" by simp_all
  let ?bs = "frame_bytes channels C i 0"
  have sb: "samples_bytes channels C n i = ?bs @ samples_bytes channels C n (i + 1)"
    using lt by (simp add: samples_bytes_def upt_rec [of i n])
  from Suc.prems obtain v1 where
    w1: "write_bytes (44 + off) ?bs view = Some v1" and
    w2: "write_bytes (44 + (off + 2 * C)) (samples_bytes channels C n (i + 1)) v1 = Some v'"
    by (auto simp: sb write_bytes_append length_frame_bytes bind_eq_Some_conv ac_simps)
  have "write_samples channels C n i (view, off) = write_samples channels C n (i + 1) (v1, off + 2 * C)"
    using lt write_frame_bytes [OF w1] by (subst write_samples.simps) simp
  also have "\<dots> = Some (v', (off + 2 * C) + 2 * C * (n - (i + 1)))"
    using Suc.hyps(1) [OF k w2] .
  also have "(off + 2 * C) + 2 * C * (n - (i + 1)) = off + 2 * C * (n - i)"
  proof -
    have "n - i = Suc (n - (i + 1))" using lt by arith
    then show ?thesis by simp
  qed
  finally show ?case .
qed

lemma length_header_bytes: "length (header_bytes buffer len) = 44"
  by (simp add: header_bytes_def le_bytes32_def le_bytes16_def)

lemma put_Some:
  "snd st + length bs \<le> length (fst st) \<Longrightarrow>
   put bs st = Some (take (snd st) (fst st) @ bs @ drop (snd st + length bs) (fst st), snd st + length bs)"
  by (simp add: put_def write_bytes_def)

lemma write_header_bytes:
  assumes "44 \<le> length view"
  shows "write_header buffer len view = Some (header_bytes buffer len @ drop 44 view, 44)"
proof -
  define h12 where "h12 = le_bytes32 0x46464952 @ le_bytes32 (len - 8) @ le_bytes32 0x45564157 @
     le_bytes32 0x20746d66 @ le_bytes32 16 @ le_bytes16 1 @
     le_bytes16 (numberOfChannels buffer) @ le_bytes32 (sampleRate buffer) @
     le_bytes32 (sampleRate buffer * 2 * numberOfChannels buffer) @
     le_bytes16 (numberOfChannels buffer * 2) @ le_bytes16 16 @
     le_bytes32 0x61746164"
  define h13 where "h13 = le_bytes32 (len - 40 - 4)"
  have l12: "length h12 = 40"
    by (simp add: h12_def le_bytes32_def le_bytes16_def)
  have l13: "length h13 = 4"
    by (simp add: h13_def le_bytes32_def)
  have "write_header buffer len view =
          put h12 (view, 0) \<bind> (\<lambda>st. put (le_bytes32 (len - snd st - 4)) st)"
    unfolding write_header_def setUint32_put setUint16_put h12_def
    by (simp only: Option.bind.simps put_bind_assoc put_put append_assoc)
  also have "put h12 (view, 0) = Some (h12 @ drop 40 view, 40)"
    using assms put_Some [of "(view, 0)" h12] by (simp add: l12)
  also have "Some (h12 @ drop 40 view, 40) \<bind> (\<lambda>st. put (le_bytes32 (len - snd st - 4)) st)
        = put h13 (h12 @ drop 40 view, 40)"
    by (simp add: h13_def)
  also have "\<dots> = Some ((h12 @ h13) @ drop 44 view, 44)"
    using assms put_Some [of "(h12 @ drop 40 view, 40)" h13] by (simp add: l12 l13)
  also have "h12 @ h13 = header_bytes buffer len"
    by (simp add: header_bytes_def h12_def h13_def)
  finally show ?thesis .
qed

lemma collect_channels_wf:
  "length (channelData b) = numberOfChannels b \<Longrightarrow>
   collect_channels b i acc = Some (acc @ drop i (channelData b))"
proof (induction "numberOfChannels b - i" arbitrary: i acc)
  case 0
  then show ?case by (subst collect_channels.simps) simp
next
  case (Suc k)
  then have lt: "i < numberOfChannels b" and k: "k = numberOfChannels b - (i + 1)" by simp_all
  have "collect_channels b i acc = collect_channels b (i + 1) (acc @ [channelData b ! i])"
    using lt Suc.prems by (subst collect_channels.simps) (simp add: getChannelData_def)
  also have "\<dots> = Some ((acc @ [channelData b ! i]) @ drop (i + 1) (channelData b))"
    using Suc.hyps(1) [OF k Suc.prems] .
  also have "(acc @ [channelData b ! i]) @ drop (i + 1) (channelData b) = acc @ drop i (channelData b)"
    using lt Suc.prems by (simp add: Cons_nth_drop_Suc)
  finally show ?case .
qed





lemma audioBufferToWav_bytes:
  assumes "length (channelData b) = numberOfChannels b"
  shows "audioBufferToWav b = Some (wav_bytes b)"
proof -
  let ?C = "numberOfChannels b" and ?N = "length_frames b"
  let ?H = "header_bytes b (?N * ?C * 2 + 44)"
  let ?D = "samples_bytes (channelData b) ?C ?N 0"
  let ?Z = "replicate (?N * ?C * 2) (0 :: byte)"
  have h: "write_header b (?N * ?C * 2 + 44) (replicate (?N * ?C * 2 + 44) 0) = Some (?H @ ?Z, 44)"
    by (simp add: write_header_bytes)
  have c: "collect_channels b 0 [] = Some (channelData b)"
    using collect_channels_wf [OF assms, of 0 "[]"] by simp
  have "write_bytes (44 + 0) ?D (?H @ ?Z) = Some (?H @ ?D)"
    by (simp add: write_bytes_def length_header_bytes length_samples_bytes)
  then have s: "write_samples (channelData b) ?C ?N 0 (?H @ ?Z, 0) = Some (?H @ ?D, 0 + 2 * ?C * (?N - 0))"
    by (rule write_samples_bytes)
  show ?thesis
    by (simp add: audioBufferToWav_def Let_def h c s wav_bytes_def)
qed

lemma length_wav_bytes: "length (wav_bytes b) = length_frames b * numberOfChannels b * 2 + 44"
  by (simp add: wav_bytes_def length_header_bytes length_samples_bytes)


lemma unat_byte_of_nat: "unat (of_nat x :: byte) = x mod 256"
  by (simp add: unat_of_nat)

lemma le16_value:
  assumes "d < 65536"
  shows "d mod 256 + 256 * (d div 256 mod 256) = (d::nat)"
proof -
  have "d div 256 < 256" using assms by simp
  then have "d div 256 mod 256 = d div 256" by simp
  then show ?thesis by simp
qed

lemma le32_value:
  assumes "d < 4294967296"
  shows "d mod 256 + 256 * (d div 256 mod 256) + 65536 * (d div 65536 mod 256)
           + 16777216 * (d div 16777216 mod 256) = (d::nat)"
proof -
  define a where "a = d div 256"
  define b where "b = a div 256"
  define c where "c = b div 256"
  have b: "d div 65536 = b" by (simp add: a_def b_def div_mult2_eq [symmetric])
  have c: "d div 16777216 = c" by (simp add: a_def b_def c_def div_mult2_eq [symmetric])
  have c256: "c < 256" using assms unfolding c [symmetric] by simp
  have 1: "d = d mod 256 + 256 * a" by (simp add: a_def)
  have 2: "a = a mod 256 + 256 * b" by (simp add: b_def)
  have 3: "b = b mod 256 + 256 * c" by (simp add: c_def)
  have 4: "c mod 256 = c" using c256 by simp
  show ?thesis
    unfolding b c 4 a_def [symmetric] using 1 2 3 by linarith
qed

lemma le32_decode:
  "d < 4294967296 \<Longrightarrow>
   unat (of_nat d :: byte) + 256 * unat (of_nat (d div 256) :: byte) +
   65536 * unat (of_nat (d div 65536) :: byte) + 16777216 * unat (of_nat (d div 16777216) :: byte) = d"
  using le32_value [of d] by (simp only: unat_byte_of_nat)

lemma le16_decode:
  "d < 65536 \<Longrightarrow> unat (of_nat d :: byte) + 256 * unat (of_nat (d div 256) :: byte) = d"
  using le16_value [of d] by (simp only: unat_byte_of_nat)

lemma getUint32_le: "length pre = pos \<Longrightarrow> d < 4294967296 \<Longrightarrow> getUint32 (pre @ le_bytes32 d @ post) pos = d"
  by (simp add: getUint32_def le_bytes32_def nth_append le32_decode)

lemma getUint16_le: "length pre = pos \<Longrightarrow> d < 65536 \<Longrightarrow> getUint16 (pre @ le_bytes16 d @ post) pos = d"
  by (simp add: getUint16_def le_bytes16_def nth_append le16_decode)

lemma header_fields:
  fixes b :: AudioBuffer and len :: nat and D :: "byte list"
  defines "bytes \<equiv> header_bytes b len @ D"
  assumes len: "44 \<le> len" "len < 4294967296"
    and ch: "numberOfChannels b * 2 < 65536"
    and sr: "sampleRate b < 4294967296"
    and br: "sampleRate b * 2 * numberOfChannels b < 4294967296"
  shows "getUint32 bytes 0 = 0x46464952" "getUint32 bytes 4 = len - 8"
    "getUint32 bytes 8 = 0x45564157" "getUint32 bytes 12 = 0x20746d66"
    "getUint32 bytes 16 = 16" "getUint16 bytes 20 = 1"
    "getUint16 bytes 22 = numberOfChannels b" "getUint32 bytes 24 = sampleRate b"
    "getUint32 bytes 28 = sampleRate b * 2 * numberOfChannels b"
    "getUint16 bytes 32 = numberOfChannels b * 2" "getUint16 bytes 34 = 16"
    "getUint32 bytes 36 = 0x61746164" "getUint32 bytes 40 = len - 44"
proof -
  let ?f1 = "le_bytes32 0x46464952" and ?f2 = "le_bytes32 (len - 8)"
    and ?f3 = "le_bytes32 0x45564157" and ?f4 = "le_bytes32 0x20746d66"
    and ?f5 = "le_bytes32 16" and ?f6 = "le_bytes16 1"
    and ?f7 = "le_bytes16 (numberOfChannels b)" and ?f8 = "le_bytes32 (sampleRate b)"
    and ?f9 = "le_bytes32 (sampleRate b * 2 * numberOfChannels b)"
    and ?f10 = "le_bytes16 (numberOfChannels b * 2)" and ?f11 = "le_bytes16 16"
    and ?f12 = "le_bytes32 0x61746164" and ?f13 = "le_bytes32 (len - 40 - 4)"
  have l32: "\<And>d. length (le_bytes32 d) = 4" and l16: "\<And>d. length (le_bytes16 d) = 2"
    by (simp_all add: le_bytes32_def le_bytes16_def)
  have e1: "bytes = [] @ ?f1 @ (?f2 @ ?f3 @ ?f4 @ ?f5 @ ?f6 @ ?f7 @ ?f8 @ ?f9 @ ?f10 @ ?f11 @ ?f12 @ ?f13 @ D)"
    and e2: "bytes = ?f1 @ ?f2 @ (?f3 @ ?f4 @ ?f5 @ ?f6 @ ?f7 @ ?f8 @ ?f9 @ ?f10 @ ?f11 @ ?f12 @ ?f13 @ D)"
    and e3: "bytes = (?f1 @ ?f2) @ ?f3 @ (?f4 @ ?f5 @ ?f6 @ ?f7 @ ?f8 @ ?f9 @ ?f10 @ ?f11 @ ?f12 @ ?f13 @ D)"
    and e4: "bytes = (?f1 @ ?f2 @ ?f3) @ ?f4 @ (?f5 @ ?f6 @ ?f7 @ ?f8 @ ?f9 @ ?f10 @ ?f11 @ ?f12 @ ?f13 @ D)"
    and e5: "bytes = (?f1 @ ?f2 @ ?f3 @ ?f4) @ ?f5 @ (?f6 @ ?f7 @ ?f8 @ ?f9 @ ?f10 @ ?f11 @ ?f12 @ ?f13 @ D)"
    and e6: "bytes = (?f1 @ ?f2 @ ?f3 @ ?f4 @ ?f5) @ ?f6 @ (?f7 @ ?f8 @ ?f9 @ ?f10 @ ?f11 @ ?f12 @ ?f13 @ D)"
    and e7: "bytes = (?f1 @ ?f2 @ ?f3 @ ?f4 @ ?f5 @ ?f6) @ ?f7 @ (?f8 @ ?f9 @ ?f10 @ ?f11 @ ?f12 @ ?f13 @ D)"
    and e8: "bytes = (?f1 @ ?f2 @ ?f3 @ ?f4 @ ?f5 @ ?f6 @ ?f7) @ ?f8 @ (?f9 @ ?f10 @ ?f11 @ ?f12 @ ?f13 @ D)"
    and e9: "bytes = (?f1 @ ?f2 @ ?f3 @ ?f4 @ ?f5 @ ?f6 @ ?f7 @ ?f8) @ ?f9 @ (?f10 @ ?f11 @ ?f12 @ ?f13 @ D)"
    and e10: "bytes = (?f1 @ ?f2 @ ?f3 @ ?f4 @ ?f5 @ ?f6 @ ?f7 @ ?f8 @ ?f9) @ ?f10 @ (?f11 @ ?f12 @ ?f13 @ D)"
    and e11: "bytes = (?f1 @ ?f2 @ ?f3 @ ?f4 @ ?f5 @ ?f6 @ ?f7 @ ?f8 @ ?f9 @ ?f10) @ ?f11 @ (?f12 @ ?f13 @ D)"
    and e12: "bytes = (?f1 @ ?f2 @ ?f3 @ ?f4 @ ?f5 @ ?f6 @ ?f7 @ ?f8 @ ?f9 @ ?f10 @ ?f11) @ ?f12 @ (?f13 @ D)"
    and e13: "bytes = (?f1 @ ?f2 @ ?f3 @ ?f4 @ ?f5 @ ?f6 @ ?f7 @ ?f8 @ ?f9 @ ?f10 @ ?f11 @ ?f12) @ ?f13 @ D"
    unfolding bytes_def header_bytes_def by (simp_all only: append_assoc append_Nil)
  show "getUint32 bytes 0 = 0x46464952"
    by (subst e1, rule getUint32_le) simp_all
  show "getUint32 bytes 4 = len - 8"
    using len by (subst e2, intro getUint32_le) (simp_all add: l32 l16)
  show "getUint32 bytes 8 = 0x45564157"
    by (subst e3, rule getUint32_le) (simp_all add: l32 l16)
  show "getUint32 bytes 12 = 0x20746d66"
    by (subst e4, rule getUint32_le) (simp_all add: l32 l16)
  show "getUint32 bytes 16 = 16"
    by (subst e5, rule getUint32_le) (simp_all add: l32 l16)
  show "getUint16 bytes 20 = 1"
    by (subst e6, rule getUint16_le) (simp_all add: l32 l16)
  show "getUint16 bytes 22 = numberOfChannels b"
    using ch by (subst e7, intro getUint16_le) (simp_all add: l32 l16)
  show "getUint32 bytes 24 = sampleRate b"
    using sr by (subst e8, intro getUint32_le) (simp_all add: l32 l16)
  show "getUint32 bytes 28 = sampleRate b * 2 * numberOfChannels b"
    using br by (subst e9, intro getUint32_le) (simp_all add: l32 l16)
  show "getUint16 bytes 32 = numberOfChannels b * 2"
    using ch by (subst e10, intro getUint16_le) (simp_all add: l32 l16)
  show "getUint16 bytes 34 = 16"
    by (subst e11, rule getUint16_le) (simp_all add: l32 l16)
  show "getUint32 bytes 36 = 0x61746164"
    by (subst e12, rule getUint32_le) (simp_all add: l32 l16)
  have "getUint32 bytes 40 = len - 40 - 4"
    using len by (subst e13, intro getUint32_le) (simp_all add: l32 l16)
  then show "getUint32 bytes 40 = len - 44" by simp
qed

lemmas quantize_defs =
  quantize_read_def read_sample_def quantize_def ToInt32_def trunc_real_def scale_sample_def
  clamp_sample_def

lemma upt_0_2: "[0..<2] = [0, Suc 0]"
  by (simp add: numeral_2_eq_2)

text \<open>
  Claim C7. For a buffer of N frames and C channels at rate R, the encoder returns a
  container of N*C*2 + 44 bytes whose header declares format code 1, C channels, sample
  rate R, byte rate R*C*2, block align C*2, 16 bits per sample, a RIFF chunk size of the
  total length less 8 and a data chunk of N*C*2 bytes (and carries the four tags and the
  descriptor size 16). The header fields are 16 and 32 bits wide, so the statement is for
  buffers whose values fit them: a container below 4 GiB, fewer than 32768 channels.
\<close>

theorem audioBufferToWav_header_and_length:
  assumes wf: "wf_buffer b"
    and total: "length_frames b * numberOfChannels b * 2 + 44 < 4294967296"
    and ch: "numberOfChannels b * 2 < 65536"
    and sr: "sampleRate b < 4294967296"
    and br: "sampleRate b * 2 * numberOfChannels b < 4294967296"
  shows "\<exists>bytes. audioBufferToWav b = Some bytes \<and>
           length bytes = length_frames b * numberOfChannels b * 2 + 44 \<and>
           getUint32 bytes 0 = 0x46464952 \<and>
           getUint32 bytes 4 = length bytes - 8 \<and>
           getUint32 bytes 8 = 0x45564157 \<and>
           getUint32 bytes 12 = 0x20746d66 \<and>
           getUint32 bytes 16 = 16 \<and>
           getUint16 bytes 20 = 1 \<and>
           getUint16 bytes 22 = numberOfChannels b \<and>
           getUint32 bytes 24 = sampleRate b \<and>
           getUint32 bytes 28 = sampleRate b * numberOfChannels b * 2 \<and>
           getUint16 bytes 32 = numberOfChannels b * 2 \<and>
           getUint16 bytes 34 = 16 \<and>
           getUint32 bytes 36 = 0x61746164 \<and>
           getUint32 bytes 40 = length_frames b * numberOfChannels b * 2"
proof -
  define len where "len = length_frames b * numberOfChannels b * 2 + 44"
  define D where "D = samples_bytes (channelData b) (numberOfChannels b) (length_frames b) 0"
  have enc: "audioBufferToWav b = Some (wav_bytes b)"
    using wf by (simp add: wf_buffer_def audioBufferToWav_bytes)
  have wb: "wav_bytes b = header_bytes b len @ D"
    by (simp add: wav_bytes_def len_def D_def)
  have lenb: "length (wav_bytes b) = len"
    by (simp add: length_wav_bytes len_def)
  have l44: "44 \<le> len" and l32: "len < 4294967296"
    using total by (simp_all add: len_def)
  note hf = header_fields [OF l44 l32 ch sr br, of D, folded wb]
  have f4: "getUint32 (wav_bytes b) 4 = length (wav_bytes b) - 8"
    unfolding hf(2) lenb by (rule refl)
  have f28: "getUint32 (wav_bytes b) 28 = sampleRate b * numberOfChannels b * 2"
    unfolding hf(9) by simp
  have f40: "getUint32 (wav_bytes b) 40 = length_frames b * numberOfChannels b * 2"
    unfolding hf(13) len_def by simp
  have l: "length (wav_bytes b) = length_frames b * numberOfChannels b * 2 + 44"
    by (rule length_wav_bytes)
  show ?thesis
    unfolding enc
    by (intro exI [of _ "wav_bytes b"] conjI refl l f4 f28 f40 hf)
qed

theorem audioBufferToWav_header_and_length_witness:
  "wf_buffer scenario_frames \<and>
   (\<exists>bytes. audioBufferToWav scenario_frames = Some bytes \<and> length bytes = 52 \<and>
      getUint16 bytes 20 = 1 \<and> getUint16 bytes 22 = 2 \<and> getUint32 bytes 24 = 44100 \<and>
      getUint32 bytes 28 = 176400 \<and> getUint16 bytes 32 = 4 \<and> getUint16 bytes 34 = 16 \<and>
      getUint32 bytes 4 = 44 \<and> getUint32 bytes 40 = 8)"
proof -
  have wf: "wf_buffer scenario_frames"
    by (simp add: wf_buffer_def scenario_frames_def)
  have "length_frames scenario_frames * numberOfChannels scenario_frames * 2 + 44 < 4294967296"
    "numberOfChannels scenario_frames * 2 < 65536"
    "sampleRate scenario_frames < 4294967296"
    "sampleRate scenario_frames * 2 * numberOfChannels scenario_frames < 4294967296"
    by (simp_all add: scenario_frames_def)
  from audioBufferToWav_header_and_length [OF wf this] obtain bytes where
    "audioBufferToWav scenario_frames = Some bytes"
    "length bytes = length_frames scenario_frames * numberOfChannels scenario_frames * 2 + 44"
    "getUint32 bytes 4 = length bytes - 8"
    "getUint16 bytes 20 = 1"
    "getUint16 bytes 22 = numberOfChannels scenario_frames"
    "getUint32 bytes 24 = sampleRate scenario_frames"
    "getUint32 bytes 28 = sampleRate scenario_frames * numberOfChannels scenario_frames * 2"
    "getUint16 bytes 32 = numberOfChannels scenario_frames * 2"
    "getUint16 bytes 34 = 16"
    "getUint32 bytes 40 = length_frames scenario_frames * numberOfChannels scenario_frames * 2"
    by blast
  then show ?thesis
    using wf by (simp add: scenario_frames_def)
qed

text \<open>
  Claim C1. The specification has every sample clamped to [-1, 1] and then rounded:
  \<open>round (s * 32768)\<close> below zero, \<open>round (s * 32767)\<close> from zero on. The encoder clamps
  in that way, but \<^verbatim>\<open>0.5 + sample < 0\<close> compares \<open>sample\<close> with -0.5 and \<^verbatim>\<open>| 0\<close>
  truncates towards zero: the sample 0.5 is stored as 16383 where rounding gives 16384, and
  the sample -0.25 is scaled by 32767 and stored as -8191 where the specification has -8192.
\<close>

theorem quantize_truncates_below_rounding:
  "quantize (1 / 2) = 16383 \<and> spec_quantize (1 / 2) = 16384 \<and>
   quantize (- 1 / 4) = - 8191 \<and> spec_quantize (- 1 / 4) = - 8192 \<and>
   map_option (drop 44) (audioBufferToWav half_sample) = Some [0xFF, 0x3F]"
proof -
  have "audioBufferToWav half_sample = Some (wav_bytes half_sample)"
    by (rule audioBufferToWav_bytes) (simp add: half_sample_def)
  moreover have "drop 44 (wav_bytes half_sample) = [0xFF, 0x3F]"
    by (simp add: wav_bytes_def length_header_bytes half_sample_def samples_bytes_def
        frame_bytes_def le_bytes16_int_def quantize_defs)
  moreover have "quantize (1 / 2) = 16383" "quantize (- 1 / 4) = - 8191"
    by (simp_all add: quantize_defs)
  moreover have "spec_quantize (1 / 2) = 16384" "spec_quantize (- 1 / 4) = - 8192"
    by (simp_all add: spec_quantize_def clamp_sample_def round_def)
  ultimately show ?thesis by simp
qed

lemma scenario_frames_data:
  "map_option (drop 44) (audioBufferToWav scenario_frames) =
     Some [0xFF, 0x7F, 0x00, 0x80, 0x00, 0x00, 0xFF, 0x3F]"
proof -
  have "audioBufferToWav scenario_frames = Some (wav_bytes scenario_frames)"
    by (rule audioBufferToWav_bytes) (simp add: scenario_frames_def)
  moreover have "drop 44 (wav_bytes scenario_frames) = [0xFF, 0x7F, 0x00, 0x80, 0x00, 0x00, 0xFF, 0x3F]"
    by (simp add: wav_bytes_def length_header_bytes scenario_frames_def samples_bytes_def
        frame_bytes_def le_bytes16_int_def quantize_defs upt_0_2)
  ultimately show ?thesis by simp
qed

lemma scenario_channels_data:
  "map_option (drop 44) (audioBufferToWav scenario_channels) =
     Some [0xFF, 0x7F, 0x00, 0x00, 0x00, 0x80, 0xFF, 0x3F]"
proof -
  have "audioBufferToWav scenario_channels = Some (wav_bytes scenario_channels)"
    by (rule audioBufferToWav_bytes) (simp add: scenario_channels_def)
  moreover have "drop 44 (wav_bytes scenario_channels) = [0xFF, 0x7F, 0x00, 0x00, 0x00, 0x80, 0xFF, 0x3F]"
    by (simp add: wav_bytes_def length_header_bytes scenario_channels_def samples_bytes_def
        frame_bytes_def le_bytes16_int_def quantize_defs upt_0_2)
  ultimately show ?thesis by simp
qed

text \<open>
  Claim C6, as stated: the scenario buffer \<^verbatim>\<open>[[1.0,-1.0],[0.0,0.5]]\<close> encodes to the data
  bytes \<^verbatim>\<open>7F FF, 00 80, 00 00, 00 40\<close>. It does not, whether the rows are read as frames or
  as channels: the first sample, 32767, is stored little-endian as \<^verbatim>\<open>FF 7F\<close>.
\<close>

theorem scenario_bytes_counterexample:
  "map_option (drop 44) (audioBufferToWav scenario_frames)
     \<noteq> Some [0x7F, 0xFF, 0x00, 0x80, 0x00, 0x00, 0x00, 0x40] \<and>
   map_option (drop 44) (audioBufferToWav scenario_channels)
     \<noteq> Some [0x7F, 0xFF, 0x00, 0x80, 0x00, 0x00, 0x00, 0x40]"
  unfolding scenario_frames_data scenario_channels_data by simp

text \<open>
  Claim C6, amended: with the rows read as frames, the data bytes begin
  \<^verbatim>\<open>FF 7F, 00 80, 00 00\<close>, the little-endian 16-bit encodings of 32767, -32768 and 0, in
  frame-interleaved order. (The fourth sample, 0.5, is the subject of claim C1.)
\<close>

theorem scenario_bytes_amended:
  "map_option (take 6 \<circ> drop 44) (audioBufferToWav scenario_frames)
     = Some [0xFF, 0x7F, 0x00, 0x80, 0x00, 0x00]"
  using scenario_frames_data by (auto simp: map_option_case split: option.splits)

section \<open>Rounding to double precision\<close>






















lemma to_double_eval:
  assumes "0 < x" "double_exponent x = e" "pow2 (e - 52) = u" "round_ties_even (x / u) = m"
  shows "to_double x = real_of_int m * u"
  using assms by (simp add: to_double_def Let_def)

lemma double_15_44100: "to_double (1 / 2940) = 6274402746159711 / 18446744073709551616"
proof -
  have e: "double_exponent (1 / 2940) = - 12"
    by (simp add: double_exponent.simps)
  have u: "pow2 (- 12 - 52) = 1 / 18446744073709551616"
    by (simp add: pow2_def)
  have m: "round_ties_even (1 / 2940 / (1 / 18446744073709551616)) = 6274402746159711"
    by (simp add: round_ties_even_def Let_def)
  show ?thesis
    using to_double_eval [OF _ e u m] by simp
qed

lemma double_1_44100: "to_double (1 / 44100) = 6692696262570359 / 295147905179352825856"
proof -
  have e: "double_exponent (1 / 44100) = - 16"
    by (simp add: double_exponent.simps)
  have u: "pow2 (- 16 - 52) = 1 / 295147905179352825856"
    by (simp add: pow2_def)
  have m: "round_ties_even (1 / 44100 / (1 / 295147905179352825856)) = 6692696262570359"
    by (simp add: round_ties_even_def Let_def)
  show ?thesis
    using to_double_eval [OF _ e u m] by simp
qed

lemma double_15_44100_times_rate: "to_double (69175290276410813775 / 4611686018427387904) = 8444249301319679 / 562949953421312"
proof -
    have e: "double_exponent (69175290276410813775 / 4611686018427387904) = 3"
    by (simp add: double_exponent.simps)
  have u: "pow2 (3 - 52) = 1 / 562949953421312"
    by (simp add: pow2_def)
  have m: "round_ties_even (69175290276410813775 / 4611686018427387904 / (1 / 562949953421312)) = 8444249301319679"
    by (simp add: round_ties_even_def Let_def)
  show ?thesis
    using to_double_eval [OF _ e u m] by simp
qed

lemma double_14_44100: "to_double (1 / 3150) = 732013653718633 / 2305843009213693952"
proof -
  have e: "double_exponent (1 / 3150) = - 12"
    by (simp add: double_exponent.simps)
  have u: "pow2 (- 12 - 52) = 1 / 18446744073709551616"
    by (simp add: pow2_def)
  have m: "round_ties_even (1 / 3150 / (1 / 18446744073709551616)) = 5856109229749064"
    by (simp add: round_ties_even_def Let_def)
  show ?thesis
    using to_double_eval [OF _ e u m] by simp
qed





section \<open>The shape of a mix\<close>




lemmas mix_defs =
  mixAudioBuffers_def duration_def Let_def unsigned_long_def trunc_real_def render_silence_def




text \<open>
  The frame that may go missing between inputs of equal rate does go missing: in double
  precision \<open>15 / 44100 * 44100\<close> is \<open>14.999999999999998\<close>, and a 15-frame buffer at
  44100 Hz mixed with a shorter one at the same rate gives 14 frames.
\<close>

lemma mix_same_rate_loses_frame:
  "map_option length_frames (mixAudioBuffers render_silence fifteen_frames_44100 half_sample)
     = Some 14"
  by (simp add: mix_defs fifteen_frames_44100_def half_sample_def double_15_44100 double_1_44100
      double_15_44100_times_rate)

section \<open>The router after a connect call\<close>


lemma router_state_disconnect: "router_state (disconnect g) = (None, None)"
  by (simp add: router_state_def disconnect_def Let_def split: option.splits)





lemmas router_defs =
  connectMicrophone_def connectSystemAudio_def connectElement_def disconnect_def resume_def
  new_graph_def createMediaStreamSource_def createMediaElementSource_def getAudioTracks_def
  node_disconnect_def stop_tracks_def router_state_def mic_stream_def screen_stream_def
  granted_def Let_def




text \<open>
  Claim C4. After a successful \<^verbatim>\<open>connectMicrophone()\<close> no signal path leads from the
  microphone to the audible output. The source's own note says so (\<^verbatim>\<open>Do not connect mic
  to destination to avoid feedback loop\<close>), but \<^verbatim>\<open>connectElement\<close> connects the analyser
  to the destination and \<^verbatim>\<open>disconnect()\<close> never removes that connection: after
  \<^verbatim>\<open>connectElement\<close> and then \<^verbatim>\<open>connectMicrophone\<close>, the microphone reaches the
  destination through the analyser.
\<close>

theorem microphone_audible_after_connectElement:
  "fst (connectMicrophone (Granted mic_stream) (connectElement 0 new_graph)) \<and>
   source (snd (connectMicrophone (Granted mic_stream) (connectElement 0 new_graph)))
     = Some (MediaStreamSourceNode mic_stream) \<and>
   connections (snd (connectMicrophone (Granted mic_stream) (connectElement 0 new_graph)))
     = {(MediaStreamSourceNode mic_stream, AnalyserNode), (AnalyserNode, DestinationNode)} \<and>
   audible (snd (connectMicrophone (Granted mic_stream) (connectElement 0 new_graph)))
     (MediaStreamSourceNode mic_stream)"
proof -
  let ?g = "snd (connectMicrophone (Granted mic_stream) (connectElement 0 new_graph))"
  have c: "connections ?g
             = {(MediaStreamSourceNode mic_stream, AnalyserNode), (AnalyserNode, DestinationNode)}"
    by (auto simp: router_defs)
  have "(MediaStreamSourceNode mic_stream, DestinationNode) \<in> (connections ?g)\<^sup>+"
    unfolding c by (rule trancl_into_trancl [of _ AnalyserNode]) auto
  then have "audible ?g (MediaStreamSourceNode mic_stream)"
    by (simp add: audible_def)
  moreover have "fst (connectMicrophone (Granted mic_stream) (connectElement 0 new_graph))"
    "source ?g = Some (MediaStreamSourceNode mic_stream)"
    by (simp_all add: router_defs)
  ultimately show ?thesis using c by simp
qed

text \<open>
  Claim C9, as stated: \<^verbatim>\<open>connectSystemAudio()\<close> on a stream without an audio track returns
  failure, stops the tracks of the stream and leaves the router unchanged. The last part
  fails for a router that had a source: \<^verbatim>\<open>disconnect()\<close> has run before the stream is
  looked at.
\<close>

theorem rejected_capture_changes_state_counterexample:
  "\<not> fst (connectSystemAudio (Granted screen_stream) (snd (connectMicrophone (Granted mic_stream) new_graph))) \<and>
   router_state (snd (connectMicrophone (Granted mic_stream) new_graph))
     = (Some (MediaStreamSourceNode mic_stream), Some mic_stream) \<and>
   router_state (snd (connectSystemAudio (Granted screen_stream)
       (snd (connectMicrophone (Granted mic_stream) new_graph)))) = (None, None)"
  by (simp add: router_defs)

text \<open>
  Claim C9, amended: on a stream without an audio track \<^verbatim>\<open>connectSystemAudio()\<close> returns
  failure, every track of that stream is stopped, and the router is left idle: unchanged if
  it was idle before the call, disconnected from its previous source otherwise.
\<close>

theorem rejected_capture_stops_tracks:
  assumes "getAudioTracks stream = []"
  shows "\<not> fst (connectSystemAudio (Granted stream) g) \<and>
         track_id ` set stream \<subseteq> stoppedTracks (snd (connectSystemAudio (Granted stream) g)) \<and>
         router_state (snd (connectSystemAudio (Granted stream) g)) = (None, None) \<and>
         (router_state g = (None, None) \<longrightarrow>
            router_state (snd (connectSystemAudio (Granted stream) g)) = router_state g)"
  using assms router_state_disconnect [of "resume g"]
  by (auto simp: connectSystemAudio_def Let_def stop_tracks_def router_state_def)

theorem rejected_capture_stops_tracks_witness:
  "getAudioTracks screen_stream = [] \<and> router_state new_graph = (None, None) \<and>
   \<not> fst (connectSystemAudio (Granted screen_stream) new_graph) \<and>
   2 \<in> stoppedTracks (snd (connectSystemAudio (Granted screen_stream) new_graph)) \<and>
   router_state (snd (connectSystemAudio (Granted screen_stream) new_graph)) = router_state new_graph"
proof -
  have h: "getAudioTracks screen_stream = []" and i: "router_state new_graph = (None, None)"
    by (simp_all add: getAudioTracks_def screen_stream_def router_state_def new_graph_def)
  have s: "2 \<in> track_id ` set screen_stream"
    by (simp add: screen_stream_def)
  show ?thesis
    using h i s rejected_capture_stops_tracks [OF h, of new_graph] by auto
qed

section \<open>Bass energy\<close>

lemma bass_loop_sum:
  assumes "8 < length data"
  shows "bass_loop data 1 (Some 0) =
           Some (real (unat (data ! 1)) + real (unat (data ! 2)) + real (unat (data ! 3)) +
                 real (unat (data ! 4)) + real (unat (data ! 5)) + real (unat (data ! 6)) +
                 real (unat (data ! 7)) + real (unat (data ! 8)))"
  using assms by (simp add: bass_loop.simps read_u8_def js_add_def)

lemma unat_byte_ge: "0 \<le> real (unat (x :: byte))"
  by (rule of_nat_0_le_iff)

lemma unat_byte_le: "real (unat (x :: byte)) \<le> 255"
proof -
  have "unat x < 2 ^ 8" using unsigned_less [of x] by simp
  then have "unat x \<le> 255" by simp
  then have "real (unat x) \<le> real 255" by (rule of_nat_mono)
  then show ?thesis by simp
qed

lemma mean8_bounds:
  fixes a b c d e f g h :: real
  assumes "0 \<le> a \<and> a \<le> 255" "0 \<le> b \<and> b \<le> 255" "0 \<le> c \<and> c \<le> 255"
    "0 \<le> d \<and> d \<le> 255" "0 \<le> e \<and> e \<le> 255" "0 \<le> f \<and> f \<le> 255"
    "0 \<le> g \<and> g \<le> 255" "0 \<le> h \<and> h \<le> 255"
  shows "0 \<le> (a + b + c + d + e + f + g + h) / 8 \<and> (a + b + c + d + e + f + g + h) / 8 \<le> 255"
  using assms by auto

lemma unat_byte_bounds: "0 \<le> real (unat (x :: byte)) \<and> real (unat x) \<le> 255"
  using unat_byte_ge [of x] unat_byte_le [of x] by (rule conjI)

lemma band_bins:
  assumes "40960 < rate" "rate \<le> 46080"
  shows "{k. center_in_band rate fftSize k} = {1..8}"
proof -
  have iff: "center_in_band rate fftSize k \<longleftrightarrow> 40960 \<le> rate * k \<and> rate * k \<le> 368640" for k
  proof -
    have "center_in_band rate fftSize k \<longleftrightarrow>
            10 \<le> real (rate * k) / 4096 \<and> real (rate * k) / 4096 \<le> 90"
      by (simp add: center_in_band_def fftSize_def Let_def)
    also have "\<dots> \<longleftrightarrow> 40960 \<le> real (rate * k) \<and> real (rate * k) \<le> 368640"
      by (simp add: pos_le_divide_eq pos_divide_le_eq)
    also have "\<dots> \<longleftrightarrow> 40960 \<le> rate * k \<and> rate * k \<le> 368640"
      by (metis of_nat_le_iff of_nat_numeral)
    finally show ?thesis .
  qed
  show ?thesis
  proof (rule set_eqI)
    fix k
    show "k \<in> {k. center_in_band rate fftSize k} \<longleftrightarrow> k \<in> {1..8}"
    proof (cases "k = 0")
      case True
      then show ?thesis by (simp add: iff)
    next
      case False
      show ?thesis
      proof (cases "k \<le> 8")
        case True
        have "rate * 1 \<le> rate * k" using False by (intro mult_le_mono2) simp
        then have "40960 \<le> rate * k" using assms(1) by linarith
        moreover have "rate * k \<le> 46080 * 8" using True assms(2) by (intro mult_le_mono) simp_all
        ultimately show ?thesis using False True by (simp add: iff)
      next
        case False
        then have "9 \<le> k" by simp
        then have "40961 * 9 \<le> rate * k" using assms(1) by (intro mult_le_mono) simp_all
        then show ?thesis using False by (simp add: iff)
      qed
    qed
  qed
qed

lemma sum_1_8: "(\<Sum>k\<in>{1..8::nat}. f k) = f 1 + f 2 + f 3 + f 4 + f 5 + f 6 + f 7 + (f 8 :: real)"
proof -
  have "{1..8::nat} = {1, 2, 3, 4, 5, 6, 7, 8}" by auto
  then show ?thesis by simp
qed

text \<open>
  Claim C8, as stated: for every sample rate \<^verbatim>\<open>bassEnergy()\<close> is the mean of the bins
  centred in [10, 90] Hz, normalised to [0, 1]. \<^verbatim>\<open>getBassEnergy\<close> adds bins 1 to 8
  whatever the sample rate and divides by 8: with every bin at 255 it returns 255, and at
  48000 Hz bin 8, centred at 93.75 Hz, is outside the band and still counted.
\<close>

theorem getBassEnergy_counterexample:
  "getBassEnergy (replicate 2048 255) = Some 255 \<and>
   getBassEnergy bin8_only = Some (255 / 8) \<and>
   \<not> center_in_band 48000 fftSize 8"
proof -
  have "bass_loop (replicate 2048 255) 1 (Some 0) = Some 2040"
    by (subst bass_loop_sum) simp_all
  moreover have "bass_loop bin8_only 1 (Some 0) = Some 255"
    by (subst bass_loop_sum) (simp_all add: bin8_only_def)
  ultimately show ?thesis
    by (simp add: getBassEnergy_def center_in_band_def fftSize_def Let_def)
qed

text \<open>
  Claim C8, amended: for transform size 4096 and a sample rate above 40960 Hz and at most
  46080 Hz (44100 Hz is one), the result is the arithmetic mean of the magnitudes of exactly
  the bins centred in [10, 90] Hz, which are bins 1 to 8, and it lies in [0, 255]: it is not
  normalised.
\<close>

theorem getBassEnergy_mean_of_bins_1_to_8:
  assumes len: "8 < length data" and lo: "40960 < rate" and hi: "rate \<le> 46080"
  shows "\<exists>m. getBassEnergy data = Some m \<and>
           m = (\<Sum>k\<in>{k. center_in_band rate fftSize k}. real (unat (data ! k)))
                 / real (card {k. center_in_band rate fftSize k}) \<and>
           0 \<le> m \<and> m \<le> 255"
proof -
  let ?m = "(real (unat (data ! 1)) + real (unat (data ! 2)) + real (unat (data ! 3)) +
             real (unat (data ! 4)) + real (unat (data ! 5)) + real (unat (data ! 6)) +
             real (unat (data ! 7)) + real (unat (data ! 8))) / 8"
  have g: "getBassEnergy data = Some ?m"
    by (simp add: getBassEnergy_def bass_loop_sum [OF len])
  have b: "{k. center_in_band rate fftSize k} = {1..8}"
    by (rule band_bins [OF lo hi])
  have m: "?m = (\<Sum>k\<in>{k. center_in_band rate fftSize k}. real (unat (data ! k)))
                 / real (card {k. center_in_band rate fftSize k})"
    unfolding b sum_1_8 by simp
  have bd: "0 \<le> ?m \<and> ?m \<le> 255"
    by (intro mean8_bounds unat_byte_bounds)
  let ?M = "(\<Sum>k\<in>{k. center_in_band rate fftSize k}. real (unat (data ! k)))
              / real (card {k. center_in_band rate fftSize k})"
  have "getBassEnergy data = Some ?M" and "0 \<le> ?M" and "?M \<le> 255"
    using g bd unfolding m by blast+
  then show ?thesis
    by (intro exI [of _ ?M] conjI refl)
qed

theorem getBassEnergy_mean_witness:
  "8 < length bin8_only \<and> (40960::nat) < 44100 \<and> (44100::nat) \<le> 46080 \<and>
   (\<exists>m. getBassEnergy bin8_only = Some m \<and> 0 \<le> m \<and> m \<le> 255)"
proof -
  have l: "8 < length bin8_only" by (simp add: bin8_only_def)
  have lo: "(40960::nat) < 44100" and hi: "(44100::nat) \<le> 46080" by simp_all
  from getBassEnergy_mean_of_bins_1_to_8 [OF l lo hi] obtain m where "getBassEnergy bin8_only = Some m" "0 \<le> m" "m \<le> 255"
    by blast
  with l show ?thesis by auto
qed

section \<open>The bars of \<^verbatim>\<open>drawBars\<close>\<close>

lemma scan_bins_reads:
  "snd (scan_bins dataArray safeEnd j st) = snd st @ [j .. min safeEnd (int (length dataArray)) - 1]"
proof (induction dataArray safeEnd j st rule: scan_bins.induct)
  case (1 dataArray safeEnd j st)
  show ?case
  proof (cases "j < safeEnd \<and> j < int (length dataArray)")
    case True
    let ?st' = "case read_u8 dataArray j of
                  Some v \<Rightarrow> (if v > fst st then v else fst st, snd st @ [j])
                | None \<Rightarrow> (fst st, snd st @ [j])"
    have s: "snd ?st' = snd st @ [j]"
      by (simp split: option.splits)
    have u: "[j .. min safeEnd (int (length dataArray)) - 1]
               = j # [j + 1 .. min safeEnd (int (length dataArray)) - 1]"
      using True by (subst upto.simps) simp
    have "snd (scan_bins dataArray safeEnd j st) = snd (scan_bins dataArray safeEnd (j + 1) ?st')"
      using True by (subst scan_bins.simps) simp
    also have "\<dots> = snd ?st' @ [j + 1 .. min safeEnd (int (length dataArray)) - 1]"
      using "1.IH" [OF True] .
    finally show ?thesis by (simp add: s u)
  next
    case False
    then have "[j .. min safeEnd (int (length dataArray)) - 1] = []"
      by (subst upto.simps) auto
    with False show ?thesis
      by (subst scan_bins.simps) auto
  qed
qed

lemma js_pow_nonneg: "0 \<le> js_pow x y"
  by (simp add: js_pow_def)

lemma startBin_nonneg: "0 \<le> startBin maxBin nBars i"
  by (simp add: startBin_def minBin_def js_pow_nonneg)

lemma span_nonempty: "startBin maxBin nBars i < safeEndBin maxBin nBars i"
  by (simp add: safeEndBin_def)

lemma bar_scan_reads:
  "snd (bar_scan dataArray maxBin nBars i)
     = [startBin maxBin nBars i .. min (safeEndBin maxBin nBars i) (int (length dataArray)) - 1]"
  by (simp add: bar_scan_def scan_bins_reads)

lemma bar_scan_in_range:
  "j \<in> set (snd (bar_scan dataArray maxBin nBars i)) \<Longrightarrow> 0 \<le> j \<and> j < int (length dataArray)"
  using startBin_nonneg [of maxBin nBars i] by (auto simp: bar_scan_reads)

lemma startBin_0: "0 < maxBin \<Longrightarrow> startBin maxBin nBars 0 = 1"
  by (simp add: startBin_def minBin_def js_pow_def)

lemma one_in_first_bar:
  assumes "2 \<le> length dataArray" "0 < maxBin"
  shows "1 \<in> set (snd (bar_scan dataArray maxBin nBars 0))"
proof -
  have "2 \<le> safeEndBin maxBin nBars 0"
    using assms(2) by (simp add: safeEndBin_def startBin_0)
  then show ?thesis
    using assms by (simp add: bar_scan_reads startBin_0)
qed

text \<open>
  Claim C10. For every bar index and every frequency-data array, the clamped span
  \<open>[startBin, max endBin (startBin + 1))\<close> is non-empty and starts at a non-negative bin,
  the scan of the bar reads exactly the indices from \<open>startBin\<close> up to, and not including,
  the smaller of the clamped span end and the array length, and so every index at which
  \<^verbatim>\<open>drawBars\<close> reads the array is within it. (The canvas size plays no part in the scan.)
\<close>

theorem drawBars_reads_in_range:
  "startBin (real frequencyBinCount - 1) numBars i < safeEndBin (real frequencyBinCount - 1) numBars i \<and>
   0 \<le> startBin (real frequencyBinCount - 1) numBars i \<and>
   snd (bar_scan dataArray (real frequencyBinCount - 1) numBars i)
     = [startBin (real frequencyBinCount - 1) numBars i ..
          min (safeEndBin (real frequencyBinCount - 1) numBars i) (int (length dataArray)) - 1] \<and>
   (\<forall>j \<in> set (drawBars_reads dataArray). 0 \<le> j \<and> j < int (length dataArray))"
  using bar_scan_in_range
  by (auto simp: span_nonempty startBin_nonneg bar_scan_reads drawBars_reads_def)

theorem drawBars_reads_in_range_witness:
  "1 \<in> set (drawBars_reads bin8_only) \<and> (0::int) \<le> 1 \<and> (1::int) < int (length bin8_only)"
proof -
  have "1 \<in> set (snd (bar_scan bin8_only (real frequencyBinCount - 1) numBars 0))"
    by (rule one_in_first_bar) (simp_all add: bin8_only_def frequencyBinCount_def fftSize_def)
  moreover have "0 \<in> set [0..<numBars]"
    by (simp add: numBars_def)
  ultimately have m: "1 \<in> set (drawBars_reads bin8_only)"
    unfolding drawBars_reads_def by (auto intro!: bexI [of _ 0])
  with drawBars_reads_in_range [of 0 bin8_only] show ?thesis by blast
qed

lemma js_pow_powr: "0 < x \<Longrightarrow> js_pow x y = x powr y"
  by (simp add: js_pow_def)

lemma endBin_startBin: "endBin maxBin nBars i = startBin maxBin nBars (i + 1)"
  by (simp add: endBin_def startBin_def)

lemma startBin_mono:
  assumes "1 \<le> maxBin" "i \<le> j"
  shows "startBin maxBin nBars i \<le> startBin maxBin nBars j"
proof -
  have "real i / real nBars \<le> real j / real nBars"
    using assms(2) by (simp add: divide_right_mono)
  then have "maxBin powr (real i / real nBars) \<le> maxBin powr (real j / real nBars)"
    using assms(1) by (rule powr_mono)
  then show ?thesis
    using assms(1) by (simp add: startBin_def minBin_def js_pow_powr floor_mono)
qed

lemma safeEndBin_mono:
  assumes "1 \<le> maxBin" "i \<le> j"
  shows "safeEndBin maxBin nBars i \<le> safeEndBin maxBin nBars j"
  unfolding safeEndBin_def endBin_startBin
  using assms by (intro max.mono add_mono startBin_mono) simp_all

lemma startBin_last:
  assumes "0 < nBars" "0 < m"
  shows "startBin (real m) nBars nBars = int m"
  using assms by (simp add: startBin_def minBin_def js_pow_powr)

lemma startBin_below_last:
  assumes "0 < nBars" "1 < m" "i < nBars"
  shows "startBin (real m) nBars i < int m"
proof -
  have "real i / real nBars < 1"
    using assms(1,3) by simp
  then have "real m powr (real i / real nBars) < real m powr 1"
    using assms(2) by (intro powr_less_mono) simp_all
  then have "real m powr (real i / real nBars) < real m"
    using assms(2) by simp
  then show ?thesis
    using assms(2) by (simp add: startBin_def minBin_def js_pow_powr floor_less_iff)
qed

lemma safeEndBin_le_last:
  assumes "0 < nBars" "1 < m" "i < nBars"
  shows "safeEndBin (real m) nBars i \<le> int m"
proof -
  have "startBin (real m) nBars (i + 1) \<le> startBin (real m) nBars nBars"
    using assms by (intro startBin_mono) simp_all
  then have "endBin (real m) nBars i \<le> int m"
    using assms by (simp add: endBin_startBin startBin_last)
  moreover have "startBin (real m) nBars i + 1 \<le> int m"
    using startBin_below_last [OF assms] by simp
  ultimately show ?thesis by (simp add: safeEndBin_def)
qed

lemma last_bin_uncovered:
  assumes "0 < nBars" "1 < m"
  shows "\<not> bin_covered (real m) nBars (int m)"
proof
  assume "bin_covered (real m) nBars (int m)"
  then obtain i where "i < nBars" "int m < safeEndBin (real m) nBars i"
    by (auto simp: bin_covered_def list_ex_iff)
  with safeEndBin_le_last [OF assms, of i] show False by simp
qed

lemma span_search:
  assumes "startBin maxBin nBars 0 \<le> k" "k < startBin maxBin nBars n"
  shows "\<exists>i<n. startBin maxBin nBars i \<le> k \<and> k < startBin maxBin nBars (i + 1)"
  using assms
proof (induction n)
  case 0
  then show ?case by simp
next
  case (Suc n)
  show ?case
  proof (cases "k < startBin maxBin nBars n")
    case True
    with Suc obtain i where "i < n" "startBin maxBin nBars i \<le> k" "k < startBin maxBin nBars (i + 1)"
      by blast
    then show ?thesis by (intro exI [of _ i]) simp
  next
    case False
    with Suc.prems show ?thesis by (intro exI [of _ n]) simp
  qed
qed

lemma inner_bins_covered:
  assumes "0 < nBars" "0 < m" "1 \<le> k" "k < int m"
  shows "bin_covered (real m) nBars k"
proof -
  have "startBin (real m) nBars 0 \<le> k"
    using assms by (simp add: startBin_0)
  moreover have "k < startBin (real m) nBars nBars"
    using assms by (simp add: startBin_last)
  ultimately obtain i where i: "i < nBars" "startBin (real m) nBars i \<le> k"
    "k < startBin (real m) nBars (i + 1)"
    using span_search by blast
  then have "k < safeEndBin (real m) nBars i"
    by (simp add: safeEndBin_def endBin_startBin)
  with i show ?thesis
    by (auto simp: bin_covered_def list_ex_iff)
qed

lemma maxBin_value: "real frequencyBinCount - 1 = real 2047"
  by (simp add: frequencyBinCount_def fftSize_def)

lemma powr_32nd_root_below_2: "(2047::real) powr (1 / 32) < 2"
proof -
  have "(2047::real) powr (1 / 32) < (2 ^ 32) powr (1 / 32)"
    by (rule powr_less_mono2) simp_all
  also have "((2::real) ^ 32) powr (1 / 32) = (2 powr 32) powr (1 / 32)"
    by (simp add: powr_realpow [symmetric])
  also have "\<dots> = 2"
    by (simp add: powr_powr)
  finally show ?thesis .
qed

lemma first_bars_share_span:
  "startBin (real frequencyBinCount - 1) 64 0 = 1 \<and> safeEndBin (real frequencyBinCount - 1) 64 0 = 2 \<and>
   startBin (real frequencyBinCount - 1) 64 1 = 1 \<and> safeEndBin (real frequencyBinCount - 1) 64 1 = 2"
proof -
  have s0: "startBin 2047 64 0 = 1"
    by (rule startBin_0) simp
  have le2: "startBin 2047 64 2 < 2"
    using powr_32nd_root_below_2
    by (simp add: startBin_def minBin_def js_pow_def floor_less_iff)
  have m1: "startBin 2047 64 0 \<le> startBin 2047 64 1"
    and m2: "startBin 2047 64 1 \<le> startBin 2047 64 2"
    by (rule startBin_mono; simp)+
  have s1: "startBin 2047 64 1 = 1" and s2: "startBin 2047 64 2 = 1"
    using s0 le2 m1 m2 by linarith+
  have e0: "endBin 2047 64 0 = 1"
    unfolding endBin_startBin using s1 by simp
  have e1: "endBin 2047 64 1 = 1"
    unfolding endBin_startBin using s2 by (simp add: numeral_2_eq_2)
  show ?thesis
    unfolding maxBin_value of_nat_numeral safeEndBin_def s0 s1 e0 e1 One_nat_def [symmetric]
    by simp
qed

text \<open>
  Claim C5, as stated, for transform size 4096 (\<open>maxBin = 2047\<close>) and 64 bars: every bin
  in \<open>[1, maxBin]\<close> is covered by a span. The spans are half-open and the last one ends at
  \<open>\<lfloor>maxBin\<rfloor>\<close>, so bin 2047 is in none of them.
\<close>

theorem last_bin_uncovered_counterexample:
  "\<not> bin_covered (real frequencyBinCount - 1) 64 2047"
  unfolding maxBin_value using last_bin_uncovered [of 64 2047] by simp

text \<open>
  Claim C5, amended: for transform size 4096 and any positive number of bars (the 64 of the
  claim, the 512 that \<^verbatim>\<open>drawBars\<close> draws), bar 0's span starts at bin 1, the lower and the
  upper bound of the clamped spans are non-decreasing in the bar index (not strictly: see
  \<open>first_bars_share_span\<close>), every span is non-empty, and every bin in \<open>[1, maxBin)\<close> is
  covered by at least one span.
\<close>

theorem bar_spans_cover_inner_bins:
  assumes "0 < nBars" and "1 \<le> k" and "k < 2047"
  shows "startBin (real frequencyBinCount - 1) nBars 0 = 1 \<and>
         startBin (real frequencyBinCount - 1) nBars i \<le> startBin (real frequencyBinCount - 1) nBars (i + 1) \<and>
         safeEndBin (real frequencyBinCount - 1) nBars i \<le> safeEndBin (real frequencyBinCount - 1) nBars (i + 1) \<and>
         startBin (real frequencyBinCount - 1) nBars i < safeEndBin (real frequencyBinCount - 1) nBars i \<and>
         bin_covered (real frequencyBinCount - 1) nBars k"
proof -
  have "bin_covered (real 2047) nBars k"
    using assms by (intro inner_bins_covered) simp_all
  moreover have "startBin (real 2047) nBars 0 = 1"
    by (rule startBin_0) simp
  moreover have "startBin (real 2047) nBars i \<le> startBin (real 2047) nBars (i + 1)"
    by (rule startBin_mono) simp_all
  moreover have "safeEndBin (real 2047) nBars i \<le> safeEndBin (real 2047) nBars (i + 1)"
    by (rule safeEndBin_mono) simp_all
  ultimately show ?thesis
    unfolding maxBin_value using span_nonempty [of "real 2047" nBars i] by blast
qed

theorem bar_spans_cover_inner_bins_witness:
  "(0::nat) < 64 \<and> (1::int) \<le> 1 \<and> (1::int) < 2047 \<and>
   startBin (real frequencyBinCount - 1) 64 0 = 1 \<and>
   startBin (real frequencyBinCount - 1) 64 0 \<le> startBin (real frequencyBinCount - 1) 64 1 \<and>
   bin_covered (real frequencyBinCount - 1) 64 1"
  using bar_spans_cover_inner_bins [of 64 1 0] by simp

end
